theory Spec2Isabelle
  imports Complex_Main "HOL-Library.Sublist" "HOL-Library.AList" "HOL-Library.Multiset"
    "HOL-Library.Product_Lexorder"
begin

text \<open>
  A shallow embedding of the billing and appointment core of the dental clinic
  application: \<open>Dental_Clinic.py\<close> (billing, search, appointments) and its smaller sibling
  \<open>dental_billing.py\<close> (billing only).  The graphical widgets are left out; every
  handler takes the text of the fields it reads as arguments and returns the message it
  shows together with the state it leaves behind.
\<close>

section \<open>Strings\<close>

text \<open>
  A Python \<open>str\<close> is modelled as a \<open>string\<close> whose characters are the code points
  below 256.  \<open>isspace\<close> lists the code points below 256 that \<open>str.strip()\<close> removes,
  \<open>lower_char\<close> is \<open>str.lower()\<close> on one such code point.
\<close>

definition isspace :: "char \<Rightarrow> bool" where
  "isspace c = ((of_char c :: nat) \<in> {9, 10, 11, 12, 13, 28, 29, 30, 31, 32, 133, 160})"

definition strip :: "string \<Rightarrow> string" where
  "strip s = rev (dropWhile isspace (rev (dropWhile isspace s)))"

definition lower_char :: "char \<Rightarrow> char" where
  "lower_char c = (let n = (of_char c :: nat) in
     if (65 \<le> n \<and> n \<le> 90) \<or> (192 \<le> n \<and> n \<le> 222 \<and> n \<noteq> 215)
     then char_of (n + 32) else c)"

definition lower :: "string \<Rightarrow> string" where
  "lower s = map lower_char s"

text \<open>\<open>contains q s\<close> is Python's \<open>q in s\<close> on strings.\<close>

fun contains :: "string \<Rightarrow> string \<Rightarrow> bool" where
  "contains q [] = (q = [])"
| "contains q (c # cs) = (prefix q (c # cs) \<or> contains q cs)"

text \<open>\<open>s.split(sep)\<close> for a one-character separator: \<open>"".split("\n")\<close> is \<open>[""]\<close>.\<close>

fun str_split :: "char \<Rightarrow> string \<Rightarrow> string list" where
  "str_split sep [] = [[]]"
| "str_split sep (c # cs) =
     (if c = sep then [] # str_split sep cs
      else (case str_split sep cs of [] \<Rightarrow> [[c]] | p # ps \<Rightarrow> (c # p) # ps))"

definition is_digit :: "char \<Rightarrow> bool" where
  "is_digit c = (48 \<le> (of_char c :: nat) \<and> (of_char c :: nat) \<le> 57)"

definition digit_val :: "char \<Rightarrow> nat" where
  "digit_val c = of_char c - 48"

definition decimal :: "nat list \<Rightarrow> nat" where
  "decimal ds = foldl (\<lambda>n d. 10 * n + d) 0 ds"

section \<open>Numbers\<close>

text \<open>
  A Python \<open>float\<close> is an IEEE 754 binary64 value: a finite value, given by the rational
  it denotes (the two zeros are identified), an infinity, or a NaN.  A price or a discount
  is an \<open>int\<close> (the literal defaults of the program) or a \<open>float\<close> (anything that was
  typed in and converted by \<open>float()\<close>).
\<close>

datatype pyfloat = Finite rat | PosInf | NegInf | NaN

datatype pynum = PyInt int | PyFloat pyfloat

datatype py_error = OverflowError | ValueError | IndexError | KeyError

text \<open>
  Rounding a rational to binary64, to nearest with ties to even: 53 significant bits, the
  exponent of the last place not below \<open>-1074\<close>, and overflow to an infinity when the
  rounded value reaches \<open>2 ^ 1024\<close>.  \<open>ilog2 a\<close> is the integer \<open>k\<close> with
  \<open>2 ^ k \<le> a < 2 ^ (k + 1)\<close>, for a positive \<open>a\<close>.
\<close>

fun bit_length :: "nat \<Rightarrow> nat" where
  "bit_length n = (if n = 0 then 0 else Suc (bit_length (n div 2)))"

declare bit_length.simps [simp del]

definition ilog2 :: "rat \<Rightarrow> int" where
  "ilog2 a = (let (p, q) = quotient_of a;
                  k = int (bit_length (nat p)) - int (bit_length (nat q))
              in if 2 powi k \<le> a then k else k - 1)"

definition round_half_even :: "rat \<Rightarrow> int" where
  "round_half_even x = (let f = \<lfloor>x\<rfloor>; r = x - of_int f in
     if r < 1 / 2 then f else if 1 / 2 < r then f + 1 else if even f then f else f + 1)"

definition binary64 :: "rat \<Rightarrow> pyfloat" where
  "binary64 x =
     (if x = 0 then Finite 0
      else let a = \<bar>x\<bar>;
               e = max (ilog2 a - 52) (- 1074);
               v = of_int (round_half_even (a / 2 powi e)) * 2 powi e
           in if 1024 \<le> ilog2 v then (if 0 < x then PosInf else NegInf)
              else Finite (if 0 < x then v else - v))"

text \<open>
  \<open>float(s)\<close> for a string: surrounding white space is dropped, then an optional sign and
  \<open>inf\<close>, \<open>infinity\<close>, \<open>nan\<close> (in any case) or a decimal number with optional fraction
  and exponent, where single underscores may separate digits.  The decimal value is
  rounded correctly.  \<open>None\<close> is the \<open>ValueError\<close>.
\<close>

definition float_space :: "char \<Rightarrow> bool" where
  "float_space c = ((of_char c :: nat) \<in> {9, 10, 11, 12, 13, 32, 133, 160})"

function digitpart :: "string \<Rightarrow> nat list \<times> string" where
  "digitpart s =
     (case s of
        [] \<Rightarrow> ([], [])
      | c # cs \<Rightarrow>
          if \<not> is_digit c then ([], s)
          else (case cs of
                  u # d # r \<Rightarrow>
                    if u = CHR ''_'' \<and> is_digit d
                    then (case digitpart (d # r) of (ds, t) \<Rightarrow> (digit_val c # ds, t))
                    else (case digitpart cs of (ds, t) \<Rightarrow> (digit_val c # ds, t))
                | _ \<Rightarrow> (case digitpart cs of (ds, t) \<Rightarrow> (digit_val c # ds, t))))"
  by pat_completeness auto
termination
  by (relation "measure length") auto

declare digitpart.simps [simp del]

definition signed :: "string \<Rightarrow> bool \<times> string" where
  "signed s = (case s of
                 [] \<Rightarrow> (False, [])
               | c # cs \<Rightarrow> if c = CHR ''-'' then (True, cs)
                          else if c = CHR ''+'' then (False, cs) else (False, s))"

definition exponent :: "string \<Rightarrow> int option" where
  "exponent s =
     (case s of
        [] \<Rightarrow> Some 0
      | c # cs \<Rightarrow>
          if c = CHR ''e'' \<or> c = CHR ''E'' then
            (case signed cs of (neg, t) \<Rightarrow>
               (case digitpart t of (ds, r) \<Rightarrow>
                  if ds \<noteq> [] \<and> r = []
                  then Some (if neg then - int (decimal ds) else int (decimal ds))
                  else None))
          else None)"

definition floatnumber :: "string \<Rightarrow> rat option" where
  "floatnumber s =
     (case digitpart s of (ds1, r1) \<Rightarrow>
        (case (case r1 of
                 [] \<Rightarrow> ([], r1)
               | c # cs \<Rightarrow> if c = CHR ''.'' then digitpart cs else ([], r1)) of
           (ds2, r2) \<Rightarrow>
             if ds1 = [] \<and> ds2 = [] then None
             else (case exponent r2 of
                     None \<Rightarrow> None
                   | Some e \<Rightarrow>
                       Some (of_nat (decimal (ds1 @ ds2)) * 10 powi (e - int (length ds2))))))"

definition py_float :: "string \<Rightarrow> pyfloat option" where
  "py_float s =
     (let t = rev (dropWhile float_space (rev (dropWhile float_space s)))
      in case signed t of (neg, u) \<Rightarrow>
           if lower u = ''inf'' \<or> lower u = ''infinity'' then Some (if neg then NegInf else PosInf)
           else if lower u = ''nan'' then Some NaN
           else (case floatnumber u of
                   None \<Rightarrow> None
                 | Some q \<Rightarrow> Some (binary64 (if neg then - q else q))))"

text \<open>
  Comparison of a float with an exact number, \<open>x < q\<close> and \<open>x > q\<close>: both are false for a
  NaN.
\<close>

fun float_lt :: "pyfloat \<Rightarrow> rat \<Rightarrow> bool" where
  "float_lt (Finite a) q = (a < q)"
| "float_lt NegInf q = True"
| "float_lt PosInf q = False"
| "float_lt NaN q = False"

fun float_gt :: "pyfloat \<Rightarrow> rat \<Rightarrow> bool" where
  "float_gt (Finite a) q = (q < a)"
| "float_gt PosInf q = True"
| "float_gt NegInf q = False"
| "float_gt NaN q = False"

text \<open>
  \<open>float(n)\<close> for a number: an \<open>int\<close> is rounded to binary64, and one that is too large
  raises \<open>OverflowError\<close>.  The same conversion is applied to an \<open>int\<close> operand of a
  mixed operation.
\<close>

fun to_float :: "pynum \<Rightarrow> py_error + pyfloat" where
  "to_float (PyFloat x) = Inr x"
| "to_float (PyInt n) =
     (case binary64 (of_int n) of Finite q \<Rightarrow> Inr (Finite q) | _ \<Rightarrow> Inl OverflowError)"

declare to_float.simps [simp del]

section \<open>The treatment catalog\<close>

text \<open>
  \<open>DentalClinic._treatments\<close> is a \<open>dict\<close> from an integer id to a pair of name and price.
  A \<open>dict\<close> keeps its keys in insertion order, and the list boxes show the catalog in that
  order, so it is modelled as an association list; \<open>d[k] = v\<close> is \<open>AList.update k v d\<close>,
  which replaces the value of a present key in place and appends a new key at the end.
\<close>

type_synonym treatment = "string \<times> pynum"

type_synonym catalog = "(nat \<times> treatment) list"

text \<open>The initial catalog of \<open>dental_billing.py\<close>; that of \<open>Dental_Clinic.py\<close> is empty.\<close>

definition billing_treatments :: catalog where
  "billing_treatments =
     [(1, (''Dental Check-up & Consultation'', PyInt 2000)),
      (2, (''Teeth Cleaning (Scaling & Polishing)'', PyInt 7000)),
      (3, (''Tooth Extraction'', PyInt 2500)),
      (4, (''Dental Fillings (Cavity Treatment)'', PyInt 5000)),
      (5, (''Root Canal Treatment'', PyInt 15000)),
      (6, (''Teeth Whitening'', PyInt 12000)),
      (7, (''Braces Consultation'', PyInt 5000))]"

text \<open>The warnings of the handlers; a line number is the \<open>i\<close> of \<open>enumerate(lines, 1)\<close>.\<close>

datatype warning =
    TreatmentRequired
  | ValidTreatmentRequired
  | ValidPriceRequired
  | LineInvalid nat
  | EmptyName nat
  | InvalidPrice nat string
  | NegativePrice nat
  | EnterPatientName
  | EnterPhone
  | DiscountRange
  | InvalidDiscount
  | SelectTreatment
  | FillAllFields
  | DateInPast
  | InvalidDate
  | InvalidTime

datatype outcome = Warning warning | Done | Raised py_error

fun warning_line :: "warning \<Rightarrow> nat option" where
  "warning_line (LineInvalid i) = Some i"
| "warning_line (EmptyName i) = Some i"
| "warning_line (InvalidPrice i s) = Some i"
| "warning_line (NegativePrice i) = Some i"
| "warning_line w = None"

text \<open>
  \<open>old_treatments = {v[0]: v[1] for v in treatments.values()}\<close> and
  \<open>old_treatments.get(name, 1000)\<close>.
\<close>

definition old_treatments :: "catalog \<Rightarrow> (string \<times> pynum) list" where
  "old_treatments current = foldl (\<lambda>d (k, v). AList.update (fst v) (snd v) d) [] current"

definition get_price :: "(string \<times> pynum) list \<Rightarrow> string \<Rightarrow> pynum" where
  "get_price old name = (case map_of old name of None \<Rightarrow> PyInt 1000 | Some p \<Rightarrow> p)"

text \<open>
  \<open>save_treatments\<close> of \<open>Dental_Clinic.py\<close>; \<open>text\<close> is the content of the text box and
  the second component of the result is \<open>self.clinic._treatments\<close> afterwards.
\<close>

definition treatments_loop :: "catalog \<Rightarrow> string list \<Rightarrow> catalog" where
  "treatments_loop current lines =
     foldl (\<lambda>new (i, name). if strip name = [] then new
                             else AList.update i (strip name, get_price (old_treatments current) (strip name)) new)
       [] (enumerate 1 lines)"

definition save_treatments :: "string \<Rightarrow> catalog \<Rightarrow> outcome \<times> catalog" where
  "save_treatments text current =
     (let lines = str_split CHR 0x0A (strip text) in
      if lines = [] \<or> (\<forall>line \<in> set lines. strip line = []) then (Warning TreatmentRequired, current)
      else let new_treatments = treatments_loop current lines in
           if new_treatments = [] then (Warning ValidTreatmentRequired, current)
           else (Done, new_treatments))"

text \<open>\<open>save_treatments\<close> of \<open>dental_billing.py\<close>, which tests \<open>not lines\<close> only.\<close>

definition save_treatments_billing :: "string \<Rightarrow> catalog \<Rightarrow> outcome \<times> catalog" where
  "save_treatments_billing text current =
     (let lines = str_split CHR 0x0A (strip text) in
      if lines = [] then (Warning TreatmentRequired, current)
      else let new_treatments = treatments_loop current lines in
           if new_treatments = [] then (Warning ValidTreatmentRequired, current)
           else (Done, new_treatments))"

text \<open>\<open>line.split(':', 1)\<close> on a line that has a colon.\<close>

definition before_colon :: "string \<Rightarrow> string" where
  "before_colon line = takeWhile (\<lambda>c. c \<noteq> CHR '':'') line"

definition after_colon :: "string \<Rightarrow> string" where
  "after_colon line = tl (dropWhile (\<lambda>c. c \<noteq> CHR '':'') line)"

text \<open>
  \<open>save_prices\<close> of \<open>Dental_Clinic.py\<close>.  The loop skips a line that is blank, has no
  colon or has no name, and returns at the first price that does not parse or is negative.
\<close>

fun prices_loop :: "(nat \<times> string) list \<Rightarrow> catalog \<Rightarrow> warning + catalog" where
  "prices_loop [] new = Inr new"
| "prices_loop ((i, l) # rest) new =
     (let line = strip l in
      if line = [] \<or> CHR '':'' \<notin> set line then prices_loop rest new
      else let name = strip (before_colon line); price_str = strip (after_colon line) in
           if name = [] then prices_loop rest new
           else (case py_float price_str of
                   None \<Rightarrow> Inl (InvalidPrice i price_str)
                 | Some price \<Rightarrow>
                     if float_lt price 0 then Inl (NegativePrice i)
                     else prices_loop rest (AList.update i (name, PyFloat price) new)))"

definition save_prices :: "string \<Rightarrow> catalog \<Rightarrow> outcome \<times> catalog" where
  "save_prices text current =
     (case prices_loop (enumerate 1 (str_split CHR 0x0A (strip text))) [] of
        Inl w \<Rightarrow> (Warning w, current)
      | Inr new_treatments \<Rightarrow>
          if new_treatments = [] then (Warning ValidPriceRequired, current)
          else (Done, new_treatments))"

text \<open>
  \<open>save_prices\<close> of \<open>dental_billing.py\<close>.  The loop returns at the first line that has no
  colon, no name, or a price that does not parse or is negative.
\<close>

fun prices_loop_billing :: "(nat \<times> string) list \<Rightarrow> catalog \<Rightarrow> warning + catalog" where
  "prices_loop_billing [] new = Inr new"
| "prices_loop_billing ((i, line) # rest) new =
     (if CHR '':'' \<notin> set line then Inl (LineInvalid i)
      else let name = strip (before_colon line); price_str = strip (after_colon line) in
           if name = [] then Inl (EmptyName i)
           else (case py_float price_str of
                   None \<Rightarrow> Inl (InvalidPrice i price_str)
                 | Some price \<Rightarrow>
                     if float_lt price 0 then Inl (NegativePrice i)
                     else prices_loop_billing rest (AList.update i (name, PyFloat price) new)))"

definition save_prices_billing :: "string \<Rightarrow> catalog \<Rightarrow> outcome \<times> catalog" where
  "save_prices_billing text current =
     (case prices_loop_billing (enumerate 1 (str_split CHR 0x0A (strip text))) [] of
        Inl w \<Rightarrow> (Warning w, current)
      | Inr new_treatments \<Rightarrow>
          if new_treatments = [] then (Warning ValidTreatmentRequired, current)
          else (Done, new_treatments))"

text \<open>
  The lines of an edited text, and the properties of one line that the price handlers
  test: no colon, no name before the colon, a price after the colon that \<open>float()\<close>
  rejects or that is negative.
\<close>

definition text_lines :: "string \<Rightarrow> string list" where
  "text_lines text = str_split CHR 0x0A (strip text)"

definition no_colon :: "string \<Rightarrow> bool" where
  "no_colon line = (CHR '':'' \<notin> set line)"

definition no_name :: "string \<Rightarrow> bool" where
  "no_name line = (strip (before_colon line) = [])"

definition bad_price :: "string \<Rightarrow> bool" where
  "bad_price line =
     (case py_float (strip (after_colon line)) of None \<Rightarrow> True | Some price \<Rightarrow> float_lt price 0)"

definition skipped :: "string \<Rightarrow> bool" where
  "skipped l = (strip l = [] \<or> no_colon (strip l) \<or> no_name (strip l))"

text \<open>What one step of the price loop of \<open>Dental_Clinic.py\<close> does with a line it accepts.\<close>

definition kept_entry :: "nat \<Rightarrow> string \<Rightarrow> catalog \<Rightarrow> catalog" where
  "kept_entry n x new =
     (if skipped x then new
      else AList.update n (strip (before_colon (strip x)),
             PyFloat (the (py_float (strip (after_colon (strip x)))))) new)"

section \<open>The combined bill file and its search (Dental\_Clinic.py)\<close>

text \<open>
  The file \<open>patient_bills.txt\<close>: absent, present with its text, or present but not
  readable (the \<open>open\<close>/\<open>read\<close> of \<open>search_bills\<close> raises).
\<close>

datatype log_file = Missing | Content string | Unreadable


text \<open>
  \<open>re.split(r'(?=={5,}|\n{3,})', content)\<close>: the pattern is a lookahead, so every match
  is empty, and the text is cut at every position that is followed by five \<open>=\<close> or by
  three newlines.  A match at position 0 gives an empty first piece.
\<close>

definition boundary :: "string \<Rightarrow> bool" where
  "boundary s = (take 5 s = ''====='' \<or> take 3 s = ''\<newline>\<newline>\<newline>'')"

fun cut :: "string \<Rightarrow> string list" where
  "cut [] = [[]]"
| "cut (c # cs) =
     (if boundary cs then [c] # cut cs
      else (case cut cs of [] \<Rightarrow> [[c]] | p # ps \<Rightarrow> (c # p) # ps))"

definition re_split :: "string \<Rightarrow> string list" where
  "re_split content = (if boundary content then [] # cut content else cut content)"

datatype search_result =
    SearchWarning
  | NoRecords
  | Found nat "string list" nat
  | NoMatch
  | SearchFailed

definition placeholder :: string where
  "placeholder = ''enter name or phone (partial match)...''"

definition matching_bills :: "string \<Rightarrow> string \<Rightarrow> string list" where
  "matching_bills query content =
     map strip (filter (\<lambda>bill. strip bill \<noteq> [] \<and> contains query (lower bill)) (re_split content))"

text \<open>
  \<open>search_bills\<close>: \<open>entry\<close> is the text of the search field.  \<open>Found n shown more\<close> is the
  result text: the number of matches, the first ten of them, and how many are left out.
\<close>

definition search_bills :: "string \<Rightarrow> log_file \<Rightarrow> search_result" where
  "search_bills entry bills =
     (let query = lower (strip entry) in
      if query = [] \<or> query = placeholder then SearchWarning
      else (case bills of
              Missing \<Rightarrow> NoRecords
            | Unreadable \<Rightarrow> SearchFailed
            | Content content \<Rightarrow>
                (let m = matching_bills query content in
                 if m \<noteq> [] then Found (length m) (take 10 m) (length m - 10)
                 else NoMatch)))"


section \<open>Appointments (Dental\_Clinic.py)\<close>

subsection \<open>Dates and times\<close>

text \<open>
  A calendar date is the triple of year, month and day, ordered lexicographically as
  \<open>datetime.date\<close> is.  \<open>strptime_date\<close> is
  \<open>datetime.datetime.strptime(s, "%Y-%m-%d").date()\<close>: the library matches the regular
  expression \<open>(\d\d\d\d)-(1[0-2]|0[1-9]|[1-9])-(3[0-1]|[1-2]\d|0[1-9]|[1-9]| [1-9])\<close> at
  the start of the text, refuses text that remains after the match, and refuses the year
  0 and a day that the month does not have.  \<open>None\<close> is the \<open>ValueError\<close>.
\<close>

type_synonym date = "nat \<times> nat \<times> nat"

definition is_leap :: "nat \<Rightarrow> bool" where
  "is_leap y = (y mod 4 = 0 \<and> (y mod 100 \<noteq> 0 \<or> y mod 400 = 0))"

definition days_in_month :: "nat \<Rightarrow> nat \<Rightarrow> nat" where
  "days_in_month y m =
     (if m = 2 then (if is_leap y then 29 else 28)
      else if m = 4 \<or> m = 6 \<or> m = 9 \<or> m = 11 then 30 else 31)"

definition nonzero_digit :: "char \<Rightarrow> bool" where
  "nonzero_digit c = (is_digit c \<and> c \<noteq> CHR ''0'')"

definition month_part :: "string \<Rightarrow> (nat \<times> string) option" where
  "month_part s =
     (case s of
        a # b # c # r \<Rightarrow>
          if a = CHR ''1'' \<and> (b = CHR ''0'' \<or> b = CHR ''1'' \<or> b = CHR ''2'') \<and> c = CHR ''-''
          then Some (10 + digit_val b, r)
          else if a = CHR ''0'' \<and> nonzero_digit b \<and> c = CHR ''-'' then Some (digit_val b, r)
          else if nonzero_digit a \<and> b = CHR ''-'' then Some (digit_val a, c # r)
          else None
      | [a, b] \<Rightarrow> if nonzero_digit a \<and> b = CHR ''-'' then Some (digit_val a, []) else None
      | _ \<Rightarrow> None)"

definition day_part :: "string \<Rightarrow> (nat \<times> string) option" where
  "day_part s =
     (case s of
        a # b # r \<Rightarrow>
          if (a = CHR ''3'' \<and> (b = CHR ''0'' \<or> b = CHR ''1'')) \<or>
             ((a = CHR ''1'' \<or> a = CHR ''2'') \<and> is_digit b) \<or>
             (a = CHR ''0'' \<and> nonzero_digit b)
          then Some (10 * digit_val a + digit_val b, r)
          else if nonzero_digit a then Some (digit_val a, b # r)
          else if a = CHR '' '' \<and> nonzero_digit b then Some (digit_val b, r)
          else None
      | [a] \<Rightarrow> if nonzero_digit a then Some (digit_val a, []) else None
      | [] \<Rightarrow> None)"

definition strptime_date :: "string \<Rightarrow> date option" where
  "strptime_date s =
     (case s of
        y1 # y2 # y3 # y4 # dash # r \<Rightarrow>
          if is_digit y1 \<and> is_digit y2 \<and> is_digit y3 \<and> is_digit y4 \<and> dash = CHR ''-'' then
            (case month_part r of
               None \<Rightarrow> None
             | Some (m, r') \<Rightarrow>
                 (case day_part r' of
                    None \<Rightarrow> None
                  | Some (d, r'') \<Rightarrow>
                      let y = decimal (map digit_val [y1, y2, y3, y4]) in
                      if r'' = [] \<and> 1 \<le> y \<and> d \<le> days_in_month y m then Some (y, m, d)
                      else None))
          else None
      | _ \<Rightarrow> None)"

text \<open>
  \<open>strptime_time\<close> is \<open>datetime.datetime.strptime(s, "%H:%M")\<close>, with the regular
  expression \<open>(2[0-3]|[0-1]\d|\d):([0-5]\d|\d)\<close>; the test of the hour and the minute
  that follows it in the program always holds.
\<close>

definition hour_part :: "string \<Rightarrow> (nat \<times> string) option" where
  "hour_part s =
     (case s of
        a # b # c # r \<Rightarrow>
          if a = CHR ''2'' \<and> (b = CHR ''0'' \<or> b = CHR ''1'' \<or> b = CHR ''2'' \<or> b = CHR ''3'') \<and>
             c = CHR '':''
          then Some (20 + digit_val b, r)
          else if (a = CHR ''0'' \<or> a = CHR ''1'') \<and> is_digit b \<and> c = CHR '':''
          then Some (10 * digit_val a + digit_val b, r)
          else if is_digit a \<and> b = CHR '':'' then Some (digit_val a, c # r)
          else None
      | [a, b] \<Rightarrow> if is_digit a \<and> b = CHR '':'' then Some (digit_val a, []) else None
      | _ \<Rightarrow> None)"

definition minute_part :: "string \<Rightarrow> (nat \<times> string) option" where
  "minute_part s =
     (case s of
        a # b # r \<Rightarrow>
          if is_digit a \<and> digit_val a \<le> 5 \<and> is_digit b then Some (10 * digit_val a + digit_val b, r)
          else if is_digit a then Some (digit_val a, b # r)
          else None
      | [a] \<Rightarrow> if is_digit a then Some (digit_val a, []) else None
      | [] \<Rightarrow> None)"

definition strptime_time :: "string \<Rightarrow> (nat \<times> nat) option" where
  "strptime_time s =
     (case hour_part s of
        None \<Rightarrow> None
      | Some (h, r) \<Rightarrow>
          (case minute_part r of
             None \<Rightarrow> None
           | Some (m, r') \<Rightarrow> if r' = [] \<and> h < 24 \<and> m < 60 then Some (h, m) else None))"

subsection \<open>The appointment record\<close>

record appointment =
  patient_name :: string
  phone :: string
  date :: string
  time_slot :: string
  treatments :: "treatment list"

definition Appointment :: "string \<Rightarrow> string \<Rightarrow> string \<Rightarrow> string \<Rightarrow> treatment list \<Rightarrow> appointment" where
  "Appointment name ph d t ts =
     \<lparr>patient_name = strip name, phone = strip ph, date = d, time_slot = t, treatments = ts\<rparr>"

definition is_upcoming :: "date \<Rightarrow> appointment \<Rightarrow> bool" where
  "is_upcoming today a =
     (case strptime_date (date a) of None \<Rightarrow> False | Some appt_date \<Rightarrow> today \<le> appt_date)"

text \<open>\<open>__str__\<close>: the names of the treatments joined by a comma, or \<open>None\<close>.\<close>

fun join :: "string \<Rightarrow> string list \<Rightarrow> string" where
  "join sep [] = []"
| "join sep [x] = x"
| "join sep (x # y # ys) = x @ sep @ join sep (y # ys)"

definition appointment_str :: "appointment \<Rightarrow> string" where
  "appointment_str a =
     patient_name a @ '' - '' @ date a @ '' '' @ time_slot a @ '' ('' @
     (if treatments a = [] then ''None'' else join '', '' (map fst (treatments a))) @ '')''"

subsection \<open>The upcoming view\<close>

text \<open>
  \<open>refresh_appointments_list\<close> filters the collection into a new list and sorts that
  list with \<open>list.sort\<close>, which is stable, by the parsed date.  The key function raises
  \<open>ValueError\<close> on a date that does not parse.  \<open>upcoming_view\<close> is the local list
  \<open>upcoming\<close> after the sort.
\<close>

definition date_key :: "appointment \<Rightarrow> date" where
  "date_key a = (case strptime_date (date a) of None \<Rightarrow> (0, 0, 0) | Some d \<Rightarrow> d)"

definition sort_by_date :: "appointment list \<Rightarrow> py_error + appointment list" where
  "sort_by_date xs =
     (if \<forall>a\<in>set xs. strptime_date (date a) \<noteq> None then Inr (sort_key date_key xs)
      else Inl ValueError)"

definition upcoming_view :: "date \<Rightarrow> appointment list \<Rightarrow> py_error + appointment list" where
  "upcoming_view today appts = sort_by_date (filter (is_upcoming today) appts)"

subsection \<open>The appointment store\<close>

text \<open>
  \<open>appointments.json\<close> holds one JSON document.  The text of the document is left to
  the \<open>json\<close> library; the model keeps the document that \<open>json.dump\<close> writes and
  \<open>json.load\<close> reads back: a \<open>dict\<close> is an object, a \<open>list\<close> or a \<open>tuple\<close> is an array.
  The file is absent, holds a document, or holds what \<open>json.load\<close> rejects.
\<close>

datatype json = JNull | JBool bool | JNum pynum | JStr string | JArr "json list"
  | JObj "(string \<times> json) list"

datatype json_file = NoFile | Doc json | Unparsable

text \<open>\<open>to_dict\<close>: every cost goes through \<open>float(cost)\<close>.\<close>

fun treatment_to_json :: "treatment \<Rightarrow> py_error + json" where
  "treatment_to_json (name, cost) =
     (case to_float cost of Inl e \<Rightarrow> Inl e | Inr x \<Rightarrow> Inr (JArr [JStr name, JNum (PyFloat x)]))"

fun collect :: "('e + 'a) list \<Rightarrow> 'e + 'a list" where
  "collect [] = Inr []"
| "collect (Inl e # xs) = Inl e"
| "collect (Inr x # xs) = (case collect xs of Inl e \<Rightarrow> Inl e | Inr ys \<Rightarrow> Inr (x # ys))"

definition to_dict :: "appointment \<Rightarrow> py_error + json" where
  "to_dict a =
     (case collect (map treatment_to_json (treatments a)) of
        Inl e \<Rightarrow> Inl e
      | Inr ts \<Rightarrow>
          Inr (JObj [(''patient_name'', JStr (patient_name a)),
                     (''phone'', JStr (phone a)),
                     (''date'', JStr (date a)),
                     (''time_slot'', JStr (time_slot a)),
                     (''treatments'', JArr ts)]))"




text \<open>
  \<open>save_appointments\<close> opens the file for writing, which empties it, and then builds and
  dumps the list of dictionaries; an exception in between is caught and leaves the empty
  file behind.
\<close>

definition save_appointments :: "appointment list \<Rightarrow> json_file" where
  "save_appointments appts =
     (case collect (map to_dict appts) of Inl e \<Rightarrow> Unparsable | Inr ds \<Rightarrow> Doc (JArr ds))"


subsection \<open>Booking and editing\<close>

text \<open>
  The part of the window state that the appointment handlers use: the collection, the
  catalog with the keys shown in the treatment list of the tab, the store, and the lines
  of the list of upcoming appointments.
\<close>

record clinic_state =
  appointments :: "appointment list"
  clinic_treatments :: catalog
  appt_treatment_keys :: "nat list"
  appointments_file :: json_file
  appointments_listbox :: "string list"

text \<open>
  The treatments of the selected rows: \<open>keys[idx]\<close> raises \<open>IndexError\<close> and
  \<open>treatments[key]\<close> raises \<open>KeyError\<close>.
\<close>

fun selected_treatments :: "catalog \<Rightarrow> nat list \<Rightarrow> nat list \<Rightarrow> py_error + treatment list" where
  "selected_treatments cat keys [] = Inr []"
| "selected_treatments cat keys (idx # rest) =
     (if length keys \<le> idx then Inl IndexError
      else (case map_of cat (keys ! idx) of
              None \<Rightarrow> Inl KeyError
            | Some t \<Rightarrow>
                (case selected_treatments cat keys rest of
                   Inl e \<Rightarrow> Inl e
                 | Inr ts \<Rightarrow> Inr (t # ts))))"

definition refresh_appointments_list :: "date \<Rightarrow> clinic_state \<Rightarrow> outcome \<times> clinic_state" where
  "refresh_appointments_list today st =
     (case upcoming_view today (appointments st) of
        Inl e \<Rightarrow> (Raised e, st\<lparr>appointments_listbox := []\<rparr>)
      | Inr upcoming \<Rightarrow> (Done, st\<lparr>appointments_listbox := map appointment_str upcoming\<rparr>))"

text \<open>
  \<open>book_appointment\<close>: the four texts are those of the entry fields, \<open>selected\<close> is the
  selection of the treatment list, and \<open>today\<close> is \<open>datetime.date.today()\<close>.
\<close>

definition book_appointment ::
  "date \<Rightarrow> string \<Rightarrow> string \<Rightarrow> string \<Rightarrow> string \<Rightarrow> nat list \<Rightarrow> clinic_state \<Rightarrow> outcome \<times> clinic_state" where
  "book_appointment today name_entry phone_entry date_entry time_entry selected st =
     (let name = strip name_entry; ph = strip phone_entry; d = strip date_entry;
          t = strip time_entry in
      if name = [] \<or> ph = [] \<or> d = [] \<or> t = [] then (Warning FillAllFields, st)
      else (case strptime_date d of
              None \<Rightarrow> (Warning InvalidDate, st)
            | Some parsed_date \<Rightarrow>
                if parsed_date < today then (Warning DateInPast, st)
                else if strptime_time t = None then (Warning InvalidTime, st)
                else if selected = [] then (Warning SelectTreatment, st)
                else (case selected_treatments (clinic_treatments st) (appt_treatment_keys st) selected of
                        Inl e \<Rightarrow> (Raised e, st)
                      | Inr ts \<Rightarrow>
                          let appts = appointments st @ [Appointment name ph d t ts] in
                          refresh_appointments_list today
                            (st\<lparr>appointments := appts, appointments_file := save_appointments appts\<rparr>))))"

text \<open>
  \<open>save_edit\<close> of \<open>edit_appointment\<close>, for the entry at \<open>full_index\<close> of the collection:
  the same tests as in booking, then the five fields of the entry are replaced.
\<close>

definition save_edit ::
  "date \<Rightarrow> nat \<Rightarrow> nat list \<Rightarrow> string \<Rightarrow> string \<Rightarrow> string \<Rightarrow> string \<Rightarrow> nat list \<Rightarrow> clinic_state
     \<Rightarrow> outcome \<times> clinic_state" where
  "save_edit today full_index edit_treat_keys name_entry phone_entry date_entry time_entry selected st =
     (let new_name = strip name_entry; new_phone = strip phone_entry; new_date = strip date_entry;
          new_time = strip time_entry in
      if new_name = [] \<or> new_phone = [] \<or> new_date = [] \<or> new_time = []
      then (Warning FillAllFields, st)
      else (case strptime_date new_date of
              None \<Rightarrow> (Warning InvalidDate, st)
            | Some parsed_date \<Rightarrow>
                if parsed_date < today then (Warning DateInPast, st)
                else if strptime_time new_time = None then (Warning InvalidTime, st)
                else if selected = [] then (Warning SelectTreatment, st)
                else (case selected_treatments (clinic_treatments st) edit_treat_keys selected of
                        Inl e \<Rightarrow> (Raised e, st)
                      | Inr new_treatments \<Rightarrow>
                          if length (appointments st) \<le> full_index then (Raised IndexError, st)
                          else
                            let appts = (appointments st)
                                  [full_index := \<lparr>patient_name = new_name, phone = new_phone,
                                     date = new_date, time_slot = new_time,
                                     treatments = new_treatments\<rparr>] in
                            refresh_appointments_list today
                              (st\<lparr>appointments := appts, appointments_file := save_appointments appts\<rparr>))))"





subsection \<open>A small appointment book\<close>

definition today0 :: date where
  "today0 = (2024, 10, 15)"

definition appt_past :: appointment where
  "appt_past = Appointment ''Ann'' ''0300'' ''2024-10-01'' ''09:00'' [(''Cleaning'', PyInt 1000)]"

definition appt_late :: appointment where
  "appt_late = Appointment ''Ben'' ''0301'' ''2024-10-20'' ''10:00'' [(''Cleaning'', PyInt 1000)]"

definition appt_today :: appointment where
  "appt_today = Appointment ''Cid'' ''0302'' ''2024-10-15'' ''11:00'' [(''Filling'', PyFloat (Finite 2500))]"

definition appt_late2 :: appointment where
  "appt_late2 = Appointment ''Dov'' ''0303'' ''2024-10-20'' ''08:00'' [(''Cleaning'', PyInt 1000)]"

definition state0 :: clinic_state where
  "state0 =
     \<lparr>appointments = [appt_past, appt_late, appt_today, appt_late2],
      clinic_treatments = [(1, (''Cleaning'', PyInt 1000)), (2, (''Filling'', PyFloat (Finite 2500)))],
      appt_treatment_keys = [1, 2],
      appointments_file = NoFile,
      appointments_listbox = []\<rparr>"

section \<open>Catalog edits: lemmas\<close>

lemma prices_loop_billing_bad:
  assumes "i < length ls" "no_colon (ls ! i) \<or> no_name (ls ! i) \<or> bad_price (ls ! i)"
  shows "\<exists>j\<le>i. \<exists>w. prices_loop_billing (enumerate n ls) new = Inl w \<and> warning_line w = Some (n + j)
           \<and> (no_colon (ls ! j) \<or> no_name (ls ! j) \<or> bad_price (ls ! j))
           \<and> (\<forall>k<j. \<not> (no_colon (ls ! k) \<or> no_name (ls ! k) \<or> bad_price (ls ! k)))"
  using assms
proof (induction ls arbitrary: i n new)
  case Nil
  then show ?case by simp
next
  case (Cons x xs)
  let ?bad = "\<lambda>l. no_colon l \<or> no_name l \<or> bad_price l"
  show ?case
  proof (cases "?bad x")
    case True
    then have "\<exists>w. prices_loop_billing (enumerate n (x # xs)) new = Inl w \<and> warning_line w = Some (n + 0)"
      by (auto simp: no_colon_def no_name_def bad_price_def Let_def split: option.splits)
    with True show ?thesis by (intro exI [of _ 0]) auto
  next
    case False
    with Cons.prems obtain i' where i': "i = Suc i'" by (cases i) auto
    from False obtain p where p: "py_float (strip (after_colon x)) = Some p" "\<not> float_lt p 0"
      by (auto simp: bad_price_def split: option.splits)
    let ?new = "AList.update n (strip (before_colon x), PyFloat p) new"
    from False p have step: "prices_loop_billing (enumerate n (x # xs)) new =
        prices_loop_billing (enumerate (Suc n) xs) ?new"
      by (simp add: no_colon_def no_name_def Let_def)
    from Cons.prems i' have "i' < length xs" "?bad (xs ! i')" by auto
    from Cons.IH [OF this, of "Suc n" ?new] obtain j w where
      j: "j \<le> i'" "prices_loop_billing (enumerate (Suc n) xs) ?new = Inl w"
         "warning_line w = Some (Suc n + j)" "?bad (xs ! j)" "\<forall>k<j. \<not> ?bad (xs ! k)"
      by blast
    have "\<forall>k<Suc j. \<not> ?bad ((x # xs) ! k)"
      using False j(5) by (auto simp: less_Suc_eq_0_disj)
    with j i' step show ?thesis
      by (intro exI [of _ "Suc j"]) auto
  qed
qed

lemma prices_loop_step:
  "\<not> (\<not> skipped x \<and> bad_price (strip x)) \<Longrightarrow>
     prices_loop ((n, x) # rest) new = prices_loop rest (kept_entry n x new)"
  by (auto simp: kept_entry_def skipped_def no_colon_def no_name_def bad_price_def Let_def
           split: option.splits)

lemma prices_loop_bad:
  assumes "i < length ls" "\<not> skipped (ls ! i) \<and> bad_price (strip (ls ! i))"
  shows "\<exists>j\<le>i. \<exists>w. prices_loop (enumerate n ls) new = Inl w \<and> warning_line w = Some (n + j)
           \<and> (\<not> skipped (ls ! j) \<and> bad_price (strip (ls ! j)))
           \<and> (\<forall>k<j. \<not> (\<not> skipped (ls ! k) \<and> bad_price (strip (ls ! k))))"
  using assms
proof (induction ls arbitrary: i n new)
  case Nil
  then show ?case by simp
next
  case (Cons x xs)
  let ?bad = "\<lambda>l. \<not> skipped l \<and> bad_price (strip l)"
  show ?case
  proof (cases "?bad x")
    case True
    then have "\<exists>w. prices_loop (enumerate n (x # xs)) new = Inl w \<and> warning_line w = Some (n + 0)"
      by (auto simp: skipped_def no_colon_def no_name_def bad_price_def Let_def split: option.splits)
    with True show ?thesis by (intro exI [of _ 0]) auto
  next
    case False
    with Cons.prems obtain i' where i': "i = Suc i'" by (cases i) auto
    from False have "prices_loop (enumerate n (x # xs)) new =
        prices_loop (enumerate (Suc n) xs) (kept_entry n x new)"
      by (simp add: prices_loop_step del: prices_loop.simps)
    then obtain new' where step: "prices_loop (enumerate n (x # xs)) new =
        prices_loop (enumerate (Suc n) xs) new'" by blast
    from Cons.prems i' have "i' < length xs" "?bad (xs ! i')" by auto
    from Cons.IH [OF this, of "Suc n" new'] obtain j w where
      j: "j \<le> i'" "prices_loop (enumerate (Suc n) xs) new' = Inl w"
         "warning_line w = Some (Suc n + j)" "?bad (xs ! j)" "\<forall>k<j. \<not> ?bad (xs ! k)"
      by blast
    have "\<forall>k<Suc j. \<not> ?bad ((x # xs) ! k)"
      using False j(5) by (auto simp: less_Suc_eq_0_disj)
    with j i' step show ?thesis
      by (intro exI [of _ "Suc j"]) auto
  qed
qed

lemma treatments_loop_keys:
  "\<forall>k\<in>set (map fst acc). k < n \<Longrightarrow>
   map fst (foldl (\<lambda>new (i, name). if strip name = [] then new
                        else AList.update i (strip name, get_price old (strip name)) new)
              acc (enumerate n ls)) =
   map fst acc @ map fst (filter (\<lambda>(i, l). strip l \<noteq> []) (enumerate n ls))"
proof (induction ls arbitrary: n acc)
  case Nil
  then show ?case by simp
next
  case (Cons x xs)
  show ?case
  proof (cases "strip x = []")
    case True
    from Cons.prems have "\<forall>k\<in>set (map fst acc). k < Suc n" by auto
    from Cons.IH [OF this] True show ?thesis by simp
  next
    case False
    let ?acc = "AList.update n (strip x, get_price old (strip x)) acc"
    from Cons.prems have n: "n \<notin> set (map fst acc)" by auto
    then have keys: "map fst ?acc = map fst acc @ [n]" by (simp add: update_keys)
    with Cons.prems have "\<forall>k\<in>set (map fst ?acc). k < Suc n" by auto
    from Cons.IH [OF this] False keys show ?thesis by simp
  qed
qed

lemma kept_entry_keys:
  "n \<notin> set (map fst acc) \<Longrightarrow>
   map fst (kept_entry n x acc) = (if skipped x then map fst acc else map fst acc @ [n])"
  by (simp add: kept_entry_def update_keys)

lemma prices_loop_keys:
  "prices_loop (enumerate n ls) acc = Inr new \<Longrightarrow> \<forall>k\<in>set (map fst acc). k < n \<Longrightarrow>
   map fst new = map fst acc @ map fst (filter (\<lambda>(i, l). \<not> skipped l) (enumerate n ls))"
proof (induction ls arbitrary: n acc)
  case Nil
  then show ?case by simp
next
  case (Cons x xs)
  have ok: "\<not> (\<not> skipped x \<and> bad_price (strip x))"
  proof
    assume "\<not> skipped x \<and> bad_price (strip x)"
    with prices_loop_bad [of 0 "x # xs" n acc] Cons.prems(1) show False by auto
  qed
  then have step: "prices_loop (enumerate (Suc n) xs) (kept_entry n x acc) = Inr new"
    using Cons.prems(1) by (simp add: prices_loop_step del: prices_loop.simps)
  from Cons.prems(2) have n: "n \<notin> set (map fst acc)" by auto
  with Cons.prems(2) have "\<forall>k\<in>set (map fst (kept_entry n x acc)). k < Suc n"
    by (auto simp: kept_entry_keys)
  from Cons.IH [OF step this] n show ?case
    by (simp add: kept_entry_keys)
qed

lemma prices_loop_billing_keys:
  "prices_loop_billing (enumerate n ls) acc = Inr new \<Longrightarrow> \<forall>k\<in>set (map fst acc). k < n \<Longrightarrow>
   map fst new = map fst acc @ [n..<n + length ls]"
proof (induction ls arbitrary: n acc)
  case Nil
  then show ?case by simp
next
  case (Cons x xs)
  from Cons.prems(1) obtain p where
    step: "prices_loop_billing (enumerate (Suc n) xs)
             (AList.update n (strip (before_colon x), PyFloat p) acc) = Inr new"
    by (auto simp: Let_def split: if_splits option.splits)
  let ?acc = "AList.update n (strip (before_colon x), PyFloat p) acc"
  from Cons.prems(2) have n: "n \<notin> set (map fst acc)" by auto
  then have keys: "map fst ?acc = map fst acc @ [n]" by (simp add: update_keys)
  with Cons.prems(2) have "\<forall>k\<in>set (map fst ?acc). k < Suc n" by auto
  from Cons.IH [OF step this] keys
  have "map fst new = map fst acc @ n # [Suc n..<Suc n + length xs]" by simp
  moreover have "[n..<n + length (x # xs)] = n # [Suc n..<Suc n + length xs]"
    using upt_conv_Cons [of n "n + length (x # xs)"] by simp
  ultimately show ?case by simp
qed

lemma filter_enumerate_all:
  "\<forall>l\<in>set ls. P l \<Longrightarrow> map fst (filter (\<lambda>(i, l). P l) (enumerate n ls)) = [n..<n + length ls]"
proof -
  assume "\<forall>l\<in>set ls. P l"
  then have "filter (\<lambda>(i, l). P l) (enumerate n ls) = enumerate n ls"
    by (auto simp: filter_id_conv enumerate_eq_zip dest: set_zip_rightD)
  then show ?thesis by simp
qed

lemma dense_keys: "map fst new = [1..<1 + m] \<Longrightarrow> set (map fst new) = {1..length new}"
proof -
  assume a: "map fst new = [1..<1 + m]"
  then have "length (map fst new) = m" by simp
  then have "length new = m" by simp
  with a show ?thesis by auto
qed

text \<open>
  C3 (as stated, refuted for \<open>Dental_Clinic.py\<close>): the second line has an empty treatment
  name, yet \<open>save_prices\<close> reports no error and replaces the catalog by the first line.
\<close>

theorem save_prices_empty_name_counterexample:
  "no_name (text_lines ''Cleaning: 100\<newline>: 50'' ! 1) \<and>
   save_prices ''Cleaning: 100\<newline>: 50'' [(1, (''Filling'', PyInt 1000))] =
     (Done, [(1, (''Cleaning'', PyFloat (Finite 100)))])"
  by code_simp

text \<open>
  C3 (amended): in both programs a price that \<open>float()\<close> rejects, or that is negative, on
  a line that is not skipped, gives a warning that names the first such line and leaves the
  catalog as it was; \<open>dental_billing.py\<close> treats a line without a colon or without a name
  in the same way, while \<open>Dental_Clinic.py\<close> skips blank lines, lines without a colon and
  lines without a name.  In both, the catalog is unchanged whenever the edit does not
  succeed.
\<close>

theorem save_prices_atomic:
  "(i < length (text_lines text) \<and>
      (no_colon (text_lines text ! i) \<or> no_name (text_lines text ! i) \<or> bad_price (text_lines text ! i)) \<longrightarrow>
      (\<exists>j\<le>i. \<exists>w. save_prices_billing text current = (Warning w, current) \<and>
          warning_line w = Some (Suc j) \<and>
          (no_colon (text_lines text ! j) \<or> no_name (text_lines text ! j) \<or> bad_price (text_lines text ! j)) \<and>
          (\<forall>k<j. \<not> (no_colon (text_lines text ! k) \<or> no_name (text_lines text ! k) \<or>
                      bad_price (text_lines text ! k))))) \<and>
   (i < length (text_lines text) \<and>
      \<not> skipped (text_lines text ! i) \<and> bad_price (strip (text_lines text ! i)) \<longrightarrow>
      (\<exists>j\<le>i. \<exists>w. save_prices text current = (Warning w, current) \<and>
          warning_line w = Some (Suc j) \<and>
          \<not> skipped (text_lines text ! j) \<and> bad_price (strip (text_lines text ! j)) \<and>
          (\<forall>k<j. \<not> (\<not> skipped (text_lines text ! k) \<and> bad_price (strip (text_lines text ! k)))))) \<and>
   (fst (save_prices_billing text current) \<noteq> Done \<longrightarrow>
      snd (save_prices_billing text current) = current) \<and>
   (fst (save_prices text current) \<noteq> Done \<longrightarrow> snd (save_prices text current) = current)"
proof (intro conjI impI)
  assume a: "i < length (text_lines text) \<and>
      (no_colon (text_lines text ! i) \<or> no_name (text_lines text ! i) \<or> bad_price (text_lines text ! i))"
  from prices_loop_billing_bad [of i "text_lines text" 1 "[]"] a
  show "\<exists>j\<le>i. \<exists>w. save_prices_billing text current = (Warning w, current) \<and>
          warning_line w = Some (Suc j) \<and>
          (no_colon (text_lines text ! j) \<or> no_name (text_lines text ! j) \<or> bad_price (text_lines text ! j)) \<and>
          (\<forall>k<j. \<not> (no_colon (text_lines text ! k) \<or> no_name (text_lines text ! k) \<or>
                      bad_price (text_lines text ! k)))"
    unfolding save_prices_billing_def text_lines_def by fastforce
next
  assume a: "i < length (text_lines text) \<and>
      \<not> skipped (text_lines text ! i) \<and> bad_price (strip (text_lines text ! i))"
  from prices_loop_bad [of i "text_lines text" 1 "[]"] a
  show "\<exists>j\<le>i. \<exists>w. save_prices text current = (Warning w, current) \<and>
          warning_line w = Some (Suc j) \<and>
          \<not> skipped (text_lines text ! j) \<and> bad_price (strip (text_lines text ! j)) \<and>
          (\<forall>k<j. \<not> (\<not> skipped (text_lines text ! k) \<and> bad_price (strip (text_lines text ! k))))"
    unfolding save_prices_def text_lines_def by fastforce
next
  assume "fst (save_prices_billing text current) \<noteq> Done"
  then show "snd (save_prices_billing text current) = current"
    by (auto simp: save_prices_billing_def split: sum.splits if_splits)
next
  assume "fst (save_prices text current) \<noteq> Done"
  then show "snd (save_prices text current) = current"
    by (auto simp: save_prices_def split: sum.splits if_splits)
qed

theorem save_prices_atomic_witness:
  "(\<exists>w. save_prices_billing ''Cleaning: 100\<newline>: 50'' billing_treatments = (Warning w, billing_treatments) \<and>
        warning_line w \<noteq> None) \<and>
   (\<exists>w. save_prices ''Cleaning: 100\<newline>Filling: -5'' billing_treatments = (Warning w, billing_treatments) \<and>
        warning_line w \<noteq> None)"
proof -
  have h1: "1 < length (text_lines ''Cleaning: 100\<newline>: 50'') \<and>
      (no_colon (text_lines ''Cleaning: 100\<newline>: 50'' ! 1) \<or>
       no_name (text_lines ''Cleaning: 100\<newline>: 50'' ! 1) \<or>
       bad_price (text_lines ''Cleaning: 100\<newline>: 50'' ! 1))"
    by code_simp
  have h2: "1 < length (text_lines ''Cleaning: 100\<newline>Filling: -5'') \<and>
      \<not> skipped (text_lines ''Cleaning: 100\<newline>Filling: -5'' ! 1) \<and>
      bad_price (strip (text_lines ''Cleaning: 100\<newline>Filling: -5'' ! 1))"
    by code_simp
  from save_prices_atomic [of 1 "''Cleaning: 100\<newline>: 50''" billing_treatments,
      THEN conjunct1, THEN mp, OF h1]
  have 1: "\<exists>w. save_prices_billing ''Cleaning: 100\<newline>: 50'' billing_treatments =
      (Warning w, billing_treatments) \<and> warning_line w \<noteq> None"
    by fastforce
  from save_prices_atomic [of 1 "''Cleaning: 100\<newline>Filling: -5''" billing_treatments,
      THEN conjunct2, THEN conjunct1, THEN mp, OF h2]
  have 2: "\<exists>w. save_prices ''Cleaning: 100\<newline>Filling: -5'' billing_treatments =
      (Warning w, billing_treatments) \<and> warning_line w \<noteq> None"
    by fastforce
  from 1 2 show ?thesis by (rule conjI)
qed

text \<open>
  C4 (as stated, refuted): a blank line between two treatment names is skipped, but the
  names keep their line numbers as ids, so two current get the ids 1 and 3.
\<close>

theorem save_treatments_dense_counterexample:
  "save_treatments ''A\<newline>\<newline>B'' [] = (Done, [(1, (''A'', PyInt 1000)), (3, (''B'', PyInt 1000))])"
  by code_simp

text \<open>
  C4 (amended): after a successful edit the ids are, in order, the line numbers of the
  lines that were not skipped; they are \<open>1..N\<close> when no line of the edited text was
  skipped, which is always so for the price edit of \<open>dental_billing.py\<close>.
\<close>

theorem catalog_edit_keys:
  "(save_treatments text current = (Done, new) \<longrightarrow>
      map fst new = map fst (filter (\<lambda>(i, l). strip l \<noteq> []) (enumerate 1 (text_lines text))) \<and>
      ((\<forall>l\<in>set (text_lines text). strip l \<noteq> []) \<longrightarrow> set (map fst new) = {1..length new})) \<and>
   (save_treatments_billing text current = (Done, new) \<longrightarrow>
      map fst new = map fst (filter (\<lambda>(i, l). strip l \<noteq> []) (enumerate 1 (text_lines text))) \<and>
      ((\<forall>l\<in>set (text_lines text). strip l \<noteq> []) \<longrightarrow> set (map fst new) = {1..length new})) \<and>
   (save_prices text current = (Done, new) \<longrightarrow>
      map fst new = map fst (filter (\<lambda>(i, l). \<not> skipped l) (enumerate 1 (text_lines text))) \<and>
      ((\<forall>l\<in>set (text_lines text). \<not> skipped l) \<longrightarrow> set (map fst new) = {1..length new})) \<and>
   (save_prices_billing text current = (Done, new) \<longrightarrow> set (map fst new) = {1..length new})"
proof -
  let ?ls = "text_lines text"
  have tl: "\<And>new. new = treatments_loop current ?ls \<Longrightarrow>
      map fst new = map fst (filter (\<lambda>(i, l). strip l \<noteq> []) (enumerate 1 ?ls))"
    using treatments_loop_keys [of "[]" 1 "old_treatments current" ?ls]
    by (simp add: treatments_loop_def)
  have d1: "\<And>new. map fst new = map fst (filter (\<lambda>(i, l). strip l \<noteq> []) (enumerate 1 ?ls)) \<Longrightarrow>
      \<forall>l\<in>set ?ls. strip l \<noteq> [] \<Longrightarrow> set (map fst new) = {1..length new}"
    using filter_enumerate_all [of ?ls "\<lambda>l. strip l \<noteq> []" 1] dense_keys by metis
  have d2: "\<And>new. map fst new = map fst (filter (\<lambda>(i, l). \<not> skipped l) (enumerate 1 ?ls)) \<Longrightarrow>
      \<forall>l\<in>set ?ls. \<not> skipped l \<Longrightarrow> set (map fst new) = {1..length new}"
    using filter_enumerate_all [of ?ls "\<lambda>l. \<not> skipped l" 1] dense_keys by metis
  have a: "save_treatments text current = (Done, new) \<Longrightarrow>
      map fst new = map fst (filter (\<lambda>(i, l). strip l \<noteq> []) (enumerate 1 ?ls))"
    by (rule tl) (auto simp: save_treatments_def text_lines_def Let_def split: if_splits)
  have b: "save_treatments_billing text current = (Done, new) \<Longrightarrow>
      map fst new = map fst (filter (\<lambda>(i, l). strip l \<noteq> []) (enumerate 1 ?ls))"
    by (rule tl) (auto simp: save_treatments_billing_def text_lines_def Let_def split: if_splits)
  have c: "save_prices text current = (Done, new) \<Longrightarrow>
      map fst new = map fst (filter (\<lambda>(i, l). \<not> skipped l) (enumerate 1 ?ls))"
  proof -
    assume "save_prices text current = (Done, new)"
    then have "prices_loop (enumerate 1 ?ls) [] = Inr new"
      by (simp add: save_prices_def text_lines_def split: sum.splits if_splits)
    from prices_loop_keys [OF this] show ?thesis by simp
  qed
  have d: "save_prices_billing text current = (Done, new) \<Longrightarrow> set (map fst new) = {1..length new}"
  proof -
    assume "save_prices_billing text current = (Done, new)"
    then have "prices_loop_billing (enumerate 1 ?ls) [] = Inr new"
      by (simp add: save_prices_billing_def text_lines_def split: sum.splits if_splits)
    from prices_loop_billing_keys [OF this] have "map fst new = [1..<1 + length ?ls]" by simp
    then show ?thesis by (rule dense_keys)
  qed
  show ?thesis
  proof (intro conjI impI)
    assume e: "save_treatments text current = (Done, new)"
    from a [OF e] show "map fst new = map fst (filter (\<lambda>(i, l). strip l \<noteq> []) (enumerate 1 ?ls))" .
    assume "\<forall>l\<in>set ?ls. strip l \<noteq> []"
    with d1 [OF a [OF e]] show "set (map fst new) = {1..length new}" .
  next
    assume e: "save_treatments_billing text current = (Done, new)"
    from b [OF e] show "map fst new = map fst (filter (\<lambda>(i, l). strip l \<noteq> []) (enumerate 1 ?ls))" .
    assume "\<forall>l\<in>set ?ls. strip l \<noteq> []"
    with d1 [OF b [OF e]] show "set (map fst new) = {1..length new}" .
  next
    assume e: "save_prices text current = (Done, new)"
    from c [OF e] show "map fst new = map fst (filter (\<lambda>(i, l). \<not> skipped l) (enumerate 1 ?ls))" .
    assume "\<forall>l\<in>set ?ls. \<not> skipped l"
    with d2 [OF c [OF e]] show "set (map fst new) = {1..length new}" .
  next
    assume e: "save_prices_billing text current = (Done, new)"
    from d [OF e] show "set (map fst new) = {1..length new}" .
  qed
qed

theorem catalog_edit_keys_witness:
  "set (map fst [(1::nat, (''A'', PyInt 1000)), (2, (''B'', PyInt 1000))]) =
     {1..length [(1::nat, (''A'', PyInt 1000)), (2, (''B'', PyInt 1000))]} \<and>
   set (map fst [(1::nat, (''A'', PyFloat (Finite 5))), (2, (''B'', PyFloat (Finite 7)))]) =
     {1..length [(1::nat, (''A'', PyFloat (Finite 5))), (2, (''B'', PyFloat (Finite 7)))]}"
proof -
  have 1: "save_treatments ''A\<newline>B'' [] = (Done, [(1, (''A'', PyInt 1000)), (2, (''B'', PyInt 1000))])"
    by code_simp
  have 2: "\<forall>l\<in>set (text_lines ''A\<newline>B''). strip l \<noteq> []" by code_simp
  have 3: "save_prices_billing ''A: 5\<newline>B: 7'' [] =
      (Done, [(1, (''A'', PyFloat (Finite 5))), (2, (''B'', PyFloat (Finite 7)))])"
    by code_simp
  from catalog_edit_keys [of "''A\<newline>B''" "[]" "[(1, (''A'', PyInt 1000)), (2, (''B'', PyInt 1000))]",
      THEN conjunct1, THEN mp, OF 1, THEN conjunct2, THEN mp, OF 2]
  have a: "set (map fst [(1::nat, (''A'', PyInt 1000)), (2, (''B'', PyInt 1000))]) =
     {1..length [(1::nat, (''A'', PyInt 1000)), (2, (''B'', PyInt 1000))]}" .
  from catalog_edit_keys [of "''A: 5\<newline>B: 7''" "[]"
        "[(1, (''A'', PyFloat (Finite 5))), (2, (''B'', PyFloat (Finite 7)))]",
      THEN conjunct2, THEN conjunct2, THEN conjunct2, THEN mp, OF 3]
  have b: "set (map fst [(1::nat, (''A'', PyFloat (Finite 5))), (2, (''B'', PyFloat (Finite 7)))]) =
     {1..length [(1::nat, (''A'', PyFloat (Finite 5))), (2, (''B'', PyFloat (Finite 7)))]}" .
  from a b show ?thesis by (rule conjI)
qed

section \<open>Search: lemmas and claims\<close>



lemma cut_not_Nil: "cut s \<noteq> []"
  by (induction s) (auto split: list.splits)

lemma concat_cut: "concat (cut s) = s"
  by (induction s) (auto split: list.splits)

lemma concat_re_split: "concat (re_split s) = s"
  by (simp add: re_split_def concat_cut)






text \<open>
  C10: a query that is the placeholder text, in any case and with any white space around
  it, is refused with the warning of an empty query, whatever the file holds.
\<close>

theorem search_bills_placeholder:
  "lower (strip entry) = placeholder \<Longrightarrow>
     search_bills entry bills = SearchWarning \<and> search_bills entry bills = search_bills [] bills"
  by (simp add: search_bills_def strip_def lower_def)

theorem search_bills_placeholder_witness:
  "search_bills '' Enter name or phone (partial match)...''
     (Content ''Patient Name: Enter name or phone (partial match)...'') = SearchWarning"
proof -
  have "lower (strip '' Enter name or phone (partial match)...'') = placeholder"
    by code_simp
  from search_bills_placeholder [OF this] show ?thesis by simp
qed

section \<open>Appointments: lemmas and claims\<close>

lemma is_upcoming_iff:
  "is_upcoming today a \<longleftrightarrow> (\<exists>d. strptime_date (date a) = Some d \<and> today \<le> d)"
  by (auto simp: is_upcoming_def split: option.splits)

lemma upcoming_view_eq:
  "upcoming_view today appts = Inr (sort_key date_key (filter (is_upcoming today) appts))"
  by (auto simp: upcoming_view_def sort_by_date_def is_upcoming_iff)

lemma date_key_parsed: "strptime_date (date a) = Some d \<Longrightarrow> date_key a = d"
  by (simp add: date_key_def)

lemma refresh_keeps_appointments:
  "appointments (snd (refresh_appointments_list today st)) = appointments st"
  by (simp add: refresh_appointments_list_def split: sum.splits)

text \<open>
  C5: the upcoming view is produced without an error; it holds exactly the appointments
  whose date parses and is not before today, each as often as the collection does; its
  dates ascend; the appointments of any one date stand in the order they have in the
  collection; and the collection itself is left as it was.
\<close>

theorem upcoming_view_sorted_stable:
  "\<exists>view. upcoming_view today (appointments st) = Inr view \<and>
     mset view = mset (filter (\<lambda>a. \<exists>d. strptime_date (date a) = Some d \<and> today \<le> d) (appointments st)) \<and>
     sorted (map date_key view) \<and>
     list_all (\<lambda>a. strptime_date (date a) = Some (date_key a) \<and> today \<le> date_key a) view \<and>
     (\<forall>k. filter (\<lambda>a. strptime_date (date a) = Some k) view =
          filter (\<lambda>a. strptime_date (date a) = Some k \<and> today \<le> k) (appointments st)) \<and>
     appointments (snd (refresh_appointments_list today st)) = appointments st \<and>
     appointments_listbox (snd (refresh_appointments_list today st)) = map appointment_str view"
proof -
  let ?up = "filter (is_upcoming today) (appointments st)"
  let ?view = "sort_key date_key ?up"
  have 1: "upcoming_view today (appointments st) = Inr ?view" by (rule upcoming_view_eq)
  have 2: "mset ?view = mset (filter (\<lambda>a. \<exists>d. strptime_date (date a) = Some d \<and> today \<le> d) (appointments st))"
    by (simp add: is_upcoming_iff [abs_def])
  have 3: "sorted (map date_key ?view)" by simp
  have 4: "list_all (\<lambda>a. strptime_date (date a) = Some (date_key a) \<and> today \<le> date_key a) ?view"
    by (auto simp: list_all_iff is_upcoming_iff date_key_parsed)
  have 5: "filter (\<lambda>a. strptime_date (date a) = Some k) ?view =
          filter (\<lambda>a. strptime_date (date a) = Some k \<and> today \<le> k) (appointments st)" for k
  proof -
    have "filter (\<lambda>a. strptime_date (date a) = Some k) ?view =
          filter (\<lambda>a. strptime_date (date a) = Some k) (filter (\<lambda>a. date_key a = k) ?view)"
      unfolding filter_filter
      by (rule filter_cong [OF refl]) (auto simp: date_key_parsed)
    also have "filter (\<lambda>a. date_key a = k) ?view = filter (\<lambda>a. date_key a = k) ?up"
      by (rule sort_key_stable)
    also have "filter (\<lambda>a. strptime_date (date a) = Some k) (filter (\<lambda>a. date_key a = k) ?up) =
          filter (\<lambda>a. strptime_date (date a) = Some k \<and> today \<le> k) (appointments st)"
      unfolding filter_filter
      by (rule filter_cong [OF refl]) (auto simp: date_key_parsed is_upcoming_def split: option.splits)
    finally show ?thesis .
  qed
  have 6: "appointments_listbox (snd (refresh_appointments_list today st)) = map appointment_str ?view"
    by (simp add: refresh_appointments_list_def 1)
  from 1 2 3 4 5 6 refresh_keeps_appointments show ?thesis by blast
qed


theorem upcoming_view_sorted_stable_witness:
  "upcoming_view today0 (appointments state0) = Inr [appt_today, appt_late, appt_late2] \<and>
   sorted (map date_key [appt_today, appt_late, appt_late2]) \<and>
   filter (\<lambda>a. strptime_date (date a) = Some (2024, 10, 20)) [appt_today, appt_late, appt_late2] =
     filter (\<lambda>a. strptime_date (date a) = Some (2024, 10, 20) \<and> today0 \<le> (2024, 10, 20))
       (appointments state0)"
proof -
  have e: "upcoming_view today0 (appointments state0) = Inr [appt_today, appt_late, appt_late2]"
    by code_simp
  from upcoming_view_sorted_stable [of today0 state0] obtain view where
    v: "upcoming_view today0 (appointments state0) = Inr view" "sorted (map date_key view)"
       "\<forall>k. filter (\<lambda>a. strptime_date (date a) = Some k) view =
          filter (\<lambda>a. strptime_date (date a) = Some k \<and> today0 \<le> k) (appointments state0)"
    by blast
  from v(1) e have "view = [appt_today, appt_late, appt_late2]" by simp
  with v(2) v(3) [THEN spec, of "(2024, 10, 20)"] e show ?thesis by simp
qed

lemma upcoming_view_member:
  "is_upcoming today a \<Longrightarrow> a \<in> set appts \<Longrightarrow>
     \<exists>view. upcoming_view today appts = Inr view \<and> a \<in> set view"
  by (simp add: upcoming_view_eq)

text \<open>
  C6: with a name, a phone number, a time that parses and a selection of treatments that
  the catalog resolves, a booking whose date parses to a day before today is refused with
  a warning and leaves the whole state, and so the collection, as it was; one whose date
  is today or later is accepted, appends the appointment to the collection, writes the
  collection to the store, and the appointment stands in the upcoming view.
\<close>

theorem book_appointment_date:
  assumes "strip name_entry \<noteq> []" and "strip phone_entry \<noteq> []"
    and "strptime_date (strip date_entry) = Some d"
    and "strptime_time (strip time_entry) \<noteq> None"
    and "selected \<noteq> []"
    and "selected_treatments (clinic_treatments st) (appt_treatment_keys st) selected = Inr ts"
  shows "(d < today \<longrightarrow>
           book_appointment today name_entry phone_entry date_entry time_entry selected st =
             (Warning DateInPast, st)) \<and>
         (today \<le> d \<longrightarrow>
           (\<exists>st' view.
              book_appointment today name_entry phone_entry date_entry time_entry selected st = (Done, st') \<and>
              appointments st' = appointments st @
                [Appointment (strip name_entry) (strip phone_entry) (strip date_entry) (strip time_entry) ts] \<and>
              appointments_file st' = save_appointments (appointments st') \<and>
              upcoming_view today (appointments st') = Inr view \<and>
              Appointment (strip name_entry) (strip phone_entry) (strip date_entry) (strip time_entry) ts
                \<in> set view \<and>
              appointments_listbox st' = map appointment_str view))"
proof (intro conjI impI)
  from assms(3) have d: "strip date_entry \<noteq> []" by (auto simp: strptime_date_def)
  from assms(4) have t: "strip time_entry \<noteq> []" by (auto simp: strptime_time_def hour_part_def)
  {
    assume "d < today"
    with assms d t show "book_appointment today name_entry phone_entry date_entry time_entry selected st =
             (Warning DateInPast, st)"
      by (simp add: book_appointment_def Let_def)
  }
  assume le: "today \<le> d"
  let ?new = "Appointment (strip name_entry) (strip phone_entry) (strip date_entry) (strip time_entry) ts"
  let ?appts = "appointments st @ [?new]"
  let ?st1 = "st\<lparr>appointments := ?appts, appointments_file := save_appointments ?appts\<rparr>"
  have up: "is_upcoming today ?new"
    using assms(3) le by (simp add: is_upcoming_def Appointment_def)
  from upcoming_view_member [OF up, of ?appts] obtain view where
    view: "upcoming_view today ?appts = Inr view" "?new \<in> set view" by auto
  from le have nlt: "\<not> d < today" by simp
  from assms(4) obtain hm where hm: "strptime_time (strip time_entry) = Some hm" by blast
  have book: "book_appointment today name_entry phone_entry date_entry time_entry selected st =
      refresh_appointments_list today ?st1"
    using assms(1,2,3,5,6) d t nlt hm by (simp add: book_appointment_def Let_def)
  have refresh: "refresh_appointments_list today ?st1 =
      (Done, ?st1\<lparr>appointments_listbox := map appointment_str view\<rparr>)"
    using view(1) by (simp add: refresh_appointments_list_def)
  show "\<exists>st' view.
              book_appointment today name_entry phone_entry date_entry time_entry selected st = (Done, st') \<and>
              appointments st' = appointments st @ [?new] \<and>
              appointments_file st' = save_appointments (appointments st') \<and>
              upcoming_view today (appointments st') = Inr view \<and>
              ?new \<in> set view \<and>
              appointments_listbox st' = map appointment_str view"
    using book refresh view
    by (intro exI [of _ "?st1\<lparr>appointments_listbox := map appointment_str view\<rparr>"] exI [of _ view]) simp
qed

theorem book_appointment_date_witness:
  "book_appointment today0 ''Eve'' ''0304'' ''2024-10-14'' ''09:30'' [0] state0 =
     (Warning DateInPast, state0) \<and>
   fst (book_appointment today0 ''Eve'' ''0304'' ''2024-10-15'' ''09:30'' [0] state0) = Done \<and>
   appointments (snd (book_appointment today0 ''Eve'' ''0304'' ''2024-10-15'' ''09:30'' [0] state0)) =
     appointments state0 @
       [Appointment (strip ''Eve'') (strip ''0304'') (strip ''2024-10-15'') (strip ''09:30'')
          [(''Cleaning'', PyInt 1000)]]"
proof -
  have h: "strip ''Eve'' \<noteq> []" "strip ''0304'' \<noteq> []"
    "strptime_time (strip ''09:30'') \<noteq> None" "[0::nat] \<noteq> []"
    "selected_treatments (clinic_treatments state0) (appt_treatment_keys state0) [0] =
       Inr [(''Cleaning'', PyInt 1000)]"
    by code_simp+
  have d1: "strptime_date (strip ''2024-10-14'') = Some (2024, 10, 14)" by code_simp
  have d2: "strptime_date (strip ''2024-10-15'') = Some (2024, 10, 15)" by code_simp
  have c1: "((2024, 10, 14) :: date) < today0" and c2: "today0 \<le> ((2024, 10, 15) :: date)"
    by (simp_all add: today0_def)
  from book_appointment_date [OF h(1,2) d1 h(3,4,5), of today0, THEN conjunct1, THEN mp, OF c1]
  have 1: "book_appointment today0 ''Eve'' ''0304'' ''2024-10-14'' ''09:30'' [0] state0 =
     (Warning DateInPast, state0)" .
  from book_appointment_date [OF h(1,2) d2 h(3,4,5), of today0, THEN conjunct2, THEN mp, OF c2]
  obtain st' where "book_appointment today0 ''Eve'' ''0304'' ''2024-10-15'' ''09:30'' [0] state0 = (Done, st')"
    "appointments st' = appointments state0 @
       [Appointment (strip ''Eve'') (strip ''0304'') (strip ''2024-10-15'') (strip ''09:30'')
          [(''Cleaning'', PyInt 1000)]]"
    by blast
  with 1 show ?thesis by simp
qed


section \<open>The appointment store: lemmas and claims\<close>

lemma dropWhile_id: "xs = [] \<or> \<not> P (hd xs) \<Longrightarrow> dropWhile P xs = xs"
  by (cases xs) auto

lemma strip_idem: "strip (strip s) = strip s"
proof -
  let ?t = "dropWhile isspace s"
  let ?u = "dropWhile isspace (rev ?t)"
  have u: "dropWhile isspace ?u = ?u" by simp
  have "rev ?u = [] \<or> \<not> isspace (hd (rev ?u))"
  proof (cases "?u = []")
    case True
    then show ?thesis by simp
  next
    case False
    then have t: "?t \<noteq> []" by (auto dest: set_dropWhileD)
    from False have "rev ?u \<noteq> []" by simp
    moreover have "rev ?t = takeWhile isspace (rev ?t) @ ?u" by simp
    then have "?t = rev ?u @ rev (takeWhile isspace (rev ?t))"
      by (metis rev_append rev_rev_ident)
    ultimately have "hd (rev ?u) = hd ?t" by (metis hd_append2)
    with t show ?thesis by (simp add: hd_dropWhile)
  qed
  then have "dropWhile isspace (rev ?u) = rev ?u" by (rule dropWhile_id)
  then show ?thesis by (simp add: strip_def u)
qed


lemma collect_map_Inl:
  "x \<in> set xs \<Longrightarrow> f x = Inl e \<Longrightarrow> \<exists>e'. collect (map f xs) = Inl e'"
proof (induction xs)
  case Nil
  then show ?case by simp
next
  case (Cons y ys)
  then show ?case by (cases "f y") (auto split: sum.splits)
qed



lemma to_float_float [simp]: "to_float (PyFloat x) = Inr x"
  by (simp add: to_float.simps)







lemma book_appointment_appointments:
  "appointments (snd (book_appointment today n p d t sel st)) = appointments st \<or>
   (\<exists>ts. appointments (snd (book_appointment today n p d t sel st)) =
      appointments st @ [Appointment (strip n) (strip p) (strip d) (strip t) ts])"
proof (cases "strptime_date (strip d)")
  case None
  then show ?thesis by (simp add: book_appointment_def Let_def)
next
  case (Some pd)
  show ?thesis
  proof (cases "selected_treatments (clinic_treatments st) (appt_treatment_keys st) sel")
    case (Inl e)
    with Some show ?thesis by (simp add: book_appointment_def Let_def)
  next
    case (Inr ts)
    with Some show ?thesis
      by (auto simp: book_appointment_def Let_def refresh_keeps_appointments)
  qed
qed

lemma book_appointment_stripped:
  assumes "\<forall>a\<in>set (appointments st). strip (patient_name a) = patient_name a \<and> strip (phone a) = phone a"
  shows "\<forall>a\<in>set (appointments (snd (book_appointment today n p d t sel st))).
           strip (patient_name a) = patient_name a \<and> strip (phone a) = phone a"
proof -
  have "strip (patient_name (Appointment (strip n) (strip p) (strip d) (strip t) ts)) =
          patient_name (Appointment (strip n) (strip p) (strip d) (strip t) ts) \<and>
        strip (phone (Appointment (strip n) (strip p) (strip d) (strip t) ts)) =
          phone (Appointment (strip n) (strip p) (strip d) (strip t) ts)" for ts
    by (simp add: Appointment_def strip_idem)
  with assms book_appointment_appointments [of today n p d t sel st] show ?thesis
    by (elim disjE exE) auto
qed

lemma save_edit_appointments:
  "appointments (snd (save_edit today i keys n p d t sel st)) = appointments st \<or>
   (\<exists>ts. appointments (snd (save_edit today i keys n p d t sel st)) =
      (appointments st)[i := \<lparr>patient_name = strip n, phone = strip p, date = strip d,
                                time_slot = strip t, treatments = ts\<rparr>])"
proof (cases "strptime_date (strip d)")
  case None
  then show ?thesis by (simp add: save_edit_def Let_def)
next
  case (Some pd)
  show ?thesis
  proof (cases "selected_treatments (clinic_treatments st) keys sel")
    case (Inl e)
    with Some show ?thesis by (simp add: save_edit_def Let_def)
  next
    case (Inr ts)
    with Some show ?thesis
      by (auto simp: save_edit_def Let_def refresh_keeps_appointments)
  qed
qed

lemma save_edit_stripped:
  assumes "\<forall>a\<in>set (appointments st). strip (patient_name a) = patient_name a \<and> strip (phone a) = phone a"
  shows "\<forall>a\<in>set (appointments (snd (save_edit today i keys n p d t sel st))).
           strip (patient_name a) = patient_name a \<and> strip (phone a) = phone a"
proof -
  have "\<forall>a\<in>set ((appointments st)[i := \<lparr>patient_name = strip n, phone = strip p, date = strip d,
                                time_slot = strip t, treatments = ts\<rparr>]).
          strip (patient_name a) = patient_name a \<and> strip (phone a) = phone a" for ts
  proof
    fix a
    assume "a \<in> set ((appointments st)[i := \<lparr>patient_name = strip n, phone = strip p, date = strip d,
                                time_slot = strip t, treatments = ts\<rparr>])"
    then have "a = \<lparr>patient_name = strip n, phone = strip p, date = strip d,
                                time_slot = strip t, treatments = ts\<rparr> \<or> a \<in> set (appointments st)"
      using set_update_subset_insert [of "appointments st" i] by auto
    with assms show "strip (patient_name a) = patient_name a \<and> strip (phone a) = phone a"
      by (auto simp: strip_idem)
  qed
  with assms save_edit_appointments [of today i keys n p d t sel st] show ?thesis
    by (elim disjE exE) simp_all
qed




end
